theory Spec2Isabelle
  imports Main
begin

section \<open>The time-series monitor notebook\<close>

text \<open>
  The program is the notebook \<^verbatim>\<open>01-Timeseries-monitor.py\<close>: a top-level script
  that creates a quality monitor through the workspace client, polls the monitor and its
  first refresh run, submits a batch of custom metrics, requests a refresh and polls it.
  The monitoring service is outside the program; it is modelled by a record of the
  answers it gives.  Line numbers refer to the notebook.
\<close>

subsection \<open>Data\<close>

text \<open>
  The two status enumerations are imported by the notebook from the client library
  (line 124); they are written here with the members that library declares.
\<close>

datatype MonitorInfoStatus =
    MONITOR_STATUS_ACTIVE
  | MONITOR_STATUS_DELETE_PENDING
  | MONITOR_STATUS_ERROR
  | MONITOR_STATUS_FAILED
  | MONITOR_STATUS_PENDING

datatype MonitorRefreshInfoState = CANCELED | FAILED | PENDING | RUNNING | SUCCESS

record MonitorInfo =
  status :: MonitorInfoStatus
  profile_metrics_table_name :: string
  drift_metrics_table_name :: string

record MonitorRefreshInfo =
  refresh_id :: int
  state :: MonitorRefreshInfoState

datatype MonitorMetricType =
    CUSTOM_METRIC_TYPE_AGGREGATE
  | CUSTOM_METRIC_TYPE_DERIVED
  | CUSTOM_METRIC_TYPE_DRIFT

text \<open>
  A metric as the notebook builds it (lines 275-369).  The field \<open>definition\<close> of the
  source is \<open>definition_sql\<close> here, \<open>type\<close> is \<open>type_m\<close>; \<open>output_data_type\<close> keeps
  the name and the type of the struct field whose JSON the source passes.
\<close>

record MonitorMetric =
  type_m :: MonitorMetricType
  name :: string
  input_columns :: "string list"
  definition_sql :: string
  output_data_type :: "string \<times> string"

text \<open>
  Exceptions.  The notebook itself raises only through \<^verbatim>\<open>assert\<close>
  (\<open>AssertionError\<close> with the assertion's message, empty when there is none) and by
  reading an unbound name (\<open>NameError\<close>).  \<open>ConfigurationError\<close> stands for what the
  client raises from \<^verbatim>\<open>create\<close> or \<^verbatim>\<open>update\<close>; \<open>TimeoutError\<close> and
  \<open>ResourceFailedError\<close> are the two further error kinds of the specification.
\<close>

datatype error =
    AssertionError string
  | NameError string
  | ConfigurationError string
  | TimeoutError
  | ResourceFailedError

fun str :: "error \<Rightarrow> string" where
  "str (AssertionError m) = m"
| "str (NameError n) = n"
| "str (ConfigurationError m) = m"
| "str TimeoutError = []"
| "str ResourceFailedError = []"

text \<open>
  What the program does to the outside, in order.  A call through the client carries the
  handle it was made with; \<open>Display t c\<close> is \<^verbatim>\<open>display(spark.sql(...))\<close> of a
  query over table \<open>t\<close>, restricted to the rows of column \<open>c\<close> when there is one.
\<close>

datatype event =
    NewClient nat
  | Print string
  | Create nat
  | Get nat
  | ListRefreshes nat
  | GetRefresh nat int
  | Update nat "MonitorMetric list"
  | RunRefresh nat
  | Sleep nat
  | Display string "string option"

text \<open>
  The program state: the table's name (built at line 81 from a catalog and a schema
  that another notebook sets), the handle bound to the global \<^verbatim>\<open>w\<close>, the number of client
  handles constructed so far, how many status requests of each kind the service has
  answered, the global \<^verbatim>\<open>lhm_monitor\<close> (\<open>None\<close> while the name is unbound) and
  the events so far.
\<close>

record world =
  TABLE_NAME :: string
  w :: nat
  clients :: nat
  gets :: nat
  refresh_gets :: nat
  lhm_monitor :: "MonitorInfo option"
  trace :: "event list"

text \<open>
  The service: the outcome of \<^verbatim>\<open>create\<close> and of \<^verbatim>\<open>update\<close> (which sees the
  submitted batch), the answer to the \<open>k\<close>-th \<^verbatim>\<open>get\<close>, the list of refreshes, the
  answer to the \<open>k\<close>-th \<^verbatim>\<open>get_refresh\<close> for a given id, and the run that
  \<^verbatim>\<open>run_refresh\<close> starts.
\<close>

record service =
  create_result :: "error + MonitorInfo"
  get_result :: "nat \<Rightarrow> MonitorInfo"
  list_refreshes_result :: "MonitorRefreshInfo list"
  get_refresh_result :: "nat \<Rightarrow> int \<Rightarrow> MonitorRefreshInfo"
  update_result :: "MonitorMetric list \<Rightarrow> error + MonitorInfo"
  run_refresh_result :: MonitorRefreshInfo

subsection \<open>Client calls\<close>

definition emit :: "event \<Rightarrow> world \<Rightarrow> world" where
  "emit e s = s\<lparr>trace := trace s @ [e]\<rparr>"

definition WorkspaceClient :: "world \<Rightarrow> world" where
  "WorkspaceClient s = emit (NewClient (clients s)) (s\<lparr>w := clients s, clients := Suc (clients s)\<rparr>)"

definition sleep :: "nat \<Rightarrow> world \<Rightarrow> world" where
  "sleep n s = emit (Sleep n) s"

definition quality_monitors_create :: "service \<Rightarrow> world \<Rightarrow> (error + MonitorInfo) \<times> world" where
  "quality_monitors_create svc s = (create_result svc, emit (Create (w s)) s)"

definition quality_monitors_get :: "service \<Rightarrow> world \<Rightarrow> MonitorInfo \<times> world" where
  "quality_monitors_get svc s = (get_result svc (gets s), emit (Get (w s)) (s\<lparr>gets := Suc (gets s)\<rparr>))"

definition quality_monitors_list_refreshes :: "service \<Rightarrow> world \<Rightarrow> MonitorRefreshInfo list \<times> world" where
  "quality_monitors_list_refreshes svc s = (list_refreshes_result svc, emit (ListRefreshes (w s)) s)"

definition quality_monitors_get_refresh :: "service \<Rightarrow> int \<Rightarrow> world \<Rightarrow> MonitorRefreshInfo \<times> world" where
  "quality_monitors_get_refresh svc rid s =
     (get_refresh_result svc (refresh_gets s) rid,
      emit (GetRefresh (w s) rid) (s\<lparr>refresh_gets := Suc (refresh_gets s)\<rparr>))"

definition quality_monitors_update :: "service \<Rightarrow> MonitorMetric list \<Rightarrow> world \<Rightarrow> (error + MonitorInfo) \<times> world" where
  "quality_monitors_update svc ms s = (update_result svc ms, emit (Update (w s) ms) s)"

definition quality_monitors_run_refresh :: "service \<Rightarrow> world \<Rightarrow> MonitorRefreshInfo \<times> world" where
  "quality_monitors_run_refresh svc s = (run_refresh_result svc, emit (RunRefresh (w s)) s)"

subsection \<open>Creating the monitor (lines 96-112)\<close>

text \<open>
  \<^verbatim>\<open>try: lhm_monitor = w.quality_monitors.create(...)\<close>
  \<^verbatim>\<open>except Exception as lhm_exception: print(lhm_exception)\<close>
\<close>

definition create_monitor :: "service \<Rightarrow> world \<Rightarrow> (error + unit) \<times> world" where
  "create_monitor svc s0 =
     (let s1 = emit (Print (''Creating monitor for '' @ TABLE_NAME s0)) s0;
          s2 = WorkspaceClient s1
      in case quality_monitors_create svc s2 of
           (Inr m, s3) \<Rightarrow> (Inr (), s3\<lparr>lhm_monitor := Some m\<rparr>)
         | (Inl e, s3) \<Rightarrow> (Inr (), emit (Print (str e)) s3))"

subsection \<open>Waiting for the monitor and its first refresh (lines 129-144)\<close>

text \<open>
  \<^verbatim>\<open>while info.status == MonitorInfoStatus.MONITOR_STATUS_PENDING:\<close>
  \<^verbatim>\<open>  info = w.quality_monitors.get(...); time.sleep(10)\<close>
  The loop has no bound of its own, so it is a partial function: \<open>None\<close> is a run that
  never leaves the loop.
\<close>

partial_function (option) monitor_poll ::
  "service \<Rightarrow> MonitorInfo \<Rightarrow> world \<Rightarrow> (MonitorInfo \<times> world) option" where
  "monitor_poll svc info s =
     (if status info = MONITOR_STATUS_PENDING
      then (case quality_monitors_get svc s of
              (info', s') \<Rightarrow> monitor_poll svc info' (sleep 10 s'))
      else Some (info, s))"

text \<open>Lines 129-134: the first \<^verbatim>\<open>get\<close>, the loop and the assertion.\<close>

definition awaitActive :: "service \<Rightarrow> world \<Rightarrow> ((error + MonitorInfo) \<times> world) option" where
  "awaitActive svc s =
     (case quality_monitors_get svc s of
        (info, s1) \<Rightarrow>
          (case monitor_poll svc info s1 of
             None \<Rightarrow> None
           | Some (info', s2) \<Rightarrow>
               if status info' = MONITOR_STATUS_ACTIVE then Some (Inr info', s2)
               else Some (Inl (AssertionError ''Error creating monitor''), s2)))"

text \<open>
  \<^verbatim>\<open>while run_info.state in (PENDING, RUNNING):\<close>
  \<^verbatim>\<open>  run_info = w.quality_monitors.get_refresh(..., refresh_id=run_info.refresh_id)\<close>
  \<^verbatim>\<open>  time.sleep(30)\<close>
  The same loop stands at lines 140-142 and at lines 411-413.
\<close>

partial_function (option) refresh_poll ::
  "service \<Rightarrow> MonitorRefreshInfo \<Rightarrow> world \<Rightarrow> (MonitorRefreshInfo \<times> world) option" where
  "refresh_poll svc run_info s =
     (if state run_info = PENDING \<or> state run_info = RUNNING
      then (case quality_monitors_get_refresh svc (refresh_id run_info) s of
              (run_info', s') \<Rightarrow> refresh_poll svc run_info' (sleep 30 s'))
      else Some (run_info, s))"

text \<open>The loop and the assertion after it (lines 140-144 and 411-415).\<close>

definition awaitRefresh ::
  "service \<Rightarrow> MonitorRefreshInfo \<Rightarrow> world \<Rightarrow> ((error + MonitorRefreshInfo) \<times> world) option" where
  "awaitRefresh svc run_info s =
     (case refresh_poll svc run_info s of
        None \<Rightarrow> None
      | Some (run_info', s') \<Rightarrow>
          if state run_info' = SUCCESS then Some (Inr run_info', s')
          else Some (Inl (AssertionError ''Monitor refresh failed''), s'))"

text \<open>
  Lines 136-144: \<^verbatim>\<open>refreshes = w.quality_monitors.list_refreshes(...).refreshes\<close>,
  \<^verbatim>\<open>assert(len(refreshes) > 0)\<close>, \<^verbatim>\<open>run_info = refreshes[0]\<close>, then the loop.
\<close>

definition first_refresh :: "service \<Rightarrow> world \<Rightarrow> ((error + MonitorRefreshInfo) \<times> world) option" where
  "first_refresh svc s =
     (case quality_monitors_list_refreshes svc s of
        (refreshes, s1) \<Rightarrow>
          if \<not> length refreshes > 0 then Some (Inl (AssertionError []), s1)
          else awaitRefresh svc (refreshes ! 0) s1)"

definition wait_for_monitor :: "service \<Rightarrow> world \<Rightarrow> ((error + MonitorRefreshInfo) \<times> world) option" where
  "wait_for_monitor svc s =
     (case awaitActive svc s of
        None \<Rightarrow> None
      | Some (Inl e, s1) \<Rightarrow> Some (Inl e, s1)
      | Some (Inr info, s1) \<Rightarrow> first_refresh svc s1)"

subsection \<open>Showing the metric tables (lines 162-199)\<close>

text \<open>
  \<^verbatim>\<open>profile_table = lhm_monitor.profile_metrics_table_name\<close> reads the global that only
  a successful \<^verbatim>\<open>create\<close> or \<^verbatim>\<open>update\<close> binds.
\<close>

definition show_metrics :: "world \<Rightarrow> (error + unit) \<times> world" where
  "show_metrics s =
     (case lhm_monitor s of
        None \<Rightarrow> (Inl (NameError ''lhm_monitor''), s)
      | Some m \<Rightarrow>
          (let profile_table = profile_metrics_table_name m;
               s1 = emit (Display profile_table None) s;
               drift_table = drift_metrics_table_name m;
               s2 = emit (Display drift_table None) s1;
               s3 = emit (Display profile_table (Some ''TotalPurchaseAmount'')) s2;
               s4 = emit (Display drift_table (Some ''TotalPurchaseAmount'')) s3
           in (Inr (), s4)))"

subsection \<open>The custom metrics (lines 275-369)\<close>

definition avg_price_after_discount_agg :: MonitorMetric where
  "avg_price_after_discount_agg =
     \<lparr>type_m = CUSTOM_METRIC_TYPE_AGGREGATE,
      name = ''avg_price_after_discount'',
      input_columns = ['':table''],
      definition_sql = ''avg(Price*(1-Discount))'',
      output_data_type = (''avg_price_after_discount'', ''double'')\<rparr>"

definition log_price_after_discount_derived :: MonitorMetric where
  "log_price_after_discount_derived =
     \<lparr>type_m = CUSTOM_METRIC_TYPE_DERIVED,
      name = ''log_price_after_discount'',
      input_columns = ['':table''],
      definition_sql = ''log(avg_price_after_discount)'',
      output_data_type = (''log_price_after_discount'', ''double'')\<rparr>"

definition variance_metric_agg :: MonitorMetric where
  "variance_metric_agg =
     \<lparr>type_m = CUSTOM_METRIC_TYPE_AGGREGATE,
      name = ''variance'',
      input_columns = [''TotalPurchaseAmount'', ''Discount''],
      definition_sql = ''var_samp(`{{input_column}}`)'',
      output_data_type = (''variance'', ''double'')\<rparr>"

definition std_metric_derived :: MonitorMetric where
  "std_metric_derived =
     \<lparr>type_m = CUSTOM_METRIC_TYPE_DERIVED,
      name = ''std'',
      input_columns = [''TotalPurchaseAmount'', ''Discount''],
      definition_sql = ''sqrt(variance)'',
      output_data_type = (''std'', ''double'')\<rparr>"

definition std_delta_pct_drift :: MonitorMetric where
  "std_delta_pct_drift =
     \<lparr>type_m = CUSTOM_METRIC_TYPE_DRIFT,
      name = ''std_delta_pct'',
      input_columns = [''TotalPurchaseAmount'', ''Discount''],
      definition_sql = ''100*({{current_df}}.std - {{base_df}}.std)/{{base_df}}.std'',
      output_data_type = (''std_pct_delta'', ''double'')\<rparr>"

definition log_price_after_discount_delta_drift :: MonitorMetric where
  "log_price_after_discount_delta_drift =
     \<lparr>type_m = CUSTOM_METRIC_TYPE_DRIFT,
      name = ''log_price_after_discount_ratio'',
      input_columns = ['':table''],
      definition_sql =
        ''{{current_df}}.log_price_after_discount/{{base_df}}.log_price_after_discount'',
      output_data_type = (''log_price_after_discount_delta'', ''double'')\<rparr>"

text \<open>The batch in the order of lines 385-392.\<close>

definition custom_metrics :: "MonitorMetric list" where
  "custom_metrics =
     [avg_price_after_discount_agg,
      log_price_after_discount_derived,
      log_price_after_discount_delta_drift,
      variance_metric_agg,
      std_metric_derived,
      std_delta_pct_drift]"

subsection \<open>Updating the monitor (lines 379-397) and refreshing it (lines 407-415)\<close>

definition update_monitor :: "service \<Rightarrow> world \<Rightarrow> (error + unit) \<times> world" where
  "update_monitor svc s =
     (case quality_monitors_update svc custom_metrics s of
        (Inr m, s1) \<Rightarrow> (Inr (), s1\<lparr>lhm_monitor := Some m\<rparr>)
      | (Inl e, s1) \<Rightarrow> (Inr (), emit (Print (str e)) s1))"

text \<open>
  \<^verbatim>\<open>run_info = w.quality_monitors.run_refresh(table_name=TABLE_NAME)\<close>,
  \<^verbatim>\<open>w = WorkspaceClient()\<close>, then the loop and the assertion.
\<close>

definition refresh_monitor ::
  "service \<Rightarrow> world \<Rightarrow> ((error + MonitorRefreshInfo) \<times> world) option" where
  "refresh_monitor svc s =
     (case quality_monitors_run_refresh svc s of
        (run_info, s1) \<Rightarrow> awaitRefresh svc run_info (WorkspaceClient s1))"

subsection \<open>The notebook from line 91 to line 415\<close>

text \<open>
  The cells run in order; an exception that leaves a cell ends the run.
\<close>

definition notebook :: "service \<Rightarrow> world \<Rightarrow> ((error + unit) \<times> world) option" where
  "notebook svc s0 =
     (case create_monitor svc (WorkspaceClient s0) of
        (Inl e, s1) \<Rightarrow> Some (Inl e, s1)
      | (Inr _, s1) \<Rightarrow>
     (case wait_for_monitor svc s1 of
        None \<Rightarrow> None
      | Some (Inl e, s2) \<Rightarrow> Some (Inl e, s2)
      | Some (Inr _, s2) \<Rightarrow>
     (case show_metrics s2 of
        (Inl e, s3) \<Rightarrow> Some (Inl e, s3)
      | (Inr _, s3) \<Rightarrow>
     (case update_monitor svc s3 of
        (Inl e, s4) \<Rightarrow> Some (Inl e, s4)
      | (Inr _, s4) \<Rightarrow>
     (case refresh_monitor svc s4 of
        None \<Rightarrow> None
      | Some (Inl e, s5) \<Rightarrow> Some (Inl e, s5)
      | Some (Inr _, s5) \<Rightarrow> Some (Inr (), s5))))))"

section \<open>What a run shows\<close>

subsection \<open>The refresh loop seen from outside\<close>

text \<open>
  \<open>refresh_seq svc g r k\<close> is the value of \<^verbatim>\<open>run_info\<close> after \<open>k\<close> rounds of the
  refresh loop that starts with \<open>r\<close> when the service has answered \<open>g\<close> requests before;
  \<open>refresh_events svc h g r n\<close> are the events of its first \<open>n\<close> rounds, made through
  handle \<open>h\<close>.  Each round asks for the id of the answer before it.
\<close>

fun refresh_seq :: "service \<Rightarrow> nat \<Rightarrow> MonitorRefreshInfo \<Rightarrow> nat \<Rightarrow> MonitorRefreshInfo" where
  "refresh_seq svc g r 0 = r"
| "refresh_seq svc g r (Suc k) =
     refresh_seq svc (Suc g) (get_refresh_result svc g (refresh_id r)) k"

fun refresh_events :: "service \<Rightarrow> nat \<Rightarrow> nat \<Rightarrow> MonitorRefreshInfo \<Rightarrow> nat \<Rightarrow> event list" where
  "refresh_events svc h g r 0 = []"
| "refresh_events svc h g r (Suc n) =
     GetRefresh h (refresh_id r) # Sleep 30 #
     refresh_events svc h (Suc g) (get_refresh_result svc g (refresh_id r)) n"

text \<open>The durations slept, in order.\<close>

fun sleeps :: "event list \<Rightarrow> nat list" where
  "sleeps [] = []"
| "sleeps (Sleep d # es) = d # sleeps es"
| "sleeps (e # es) = sleeps es"

text \<open>
  A run polls every \<open>interval\<close> seconds when each of its sleeps lasts that long: what a
  caller who could choose the interval would observe.
\<close>

definition polls_every :: "nat \<Rightarrow> event list \<Rightarrow> bool" where
  "polls_every interval es = (sleeps es = replicate (length (sleeps es)) interval)"

subsection \<open>Names in a metric's expression\<close>

text \<open>
  The batch is checked by the service, not by the notebook.  To say which names an
  expression refers to, it is cut into words (maximal runs of letters, digits and
  underscores), each with the character before it and the character after it.  A word
  followed by an opening parenthesis is a function call, a word between braces is a
  template item such as \<^verbatim>\<open>{{input_column}}\<close> or \<^verbatim>\<open>{{current_df}}\<close>, a word of
  digits is a number; every other word refers to a name.
\<close>

definition is_digit :: "char \<Rightarrow> bool" where
  "is_digit c = (c \<in> set ''0123456789'')"

definition is_word_char :: "char \<Rightarrow> bool" where
  "is_word_char c =
     (c \<in> set ''abcdefghijklmnopqrstuvwxyzABCDEFGHIJKLMNOPQRSTUVWXYZ_'' \<or> is_digit c)"

fun scan :: "char option \<Rightarrow> string \<Rightarrow> string \<Rightarrow> (char option \<times> string \<times> char option) list" where
  "scan prev cur [] = (if cur = [] then [] else [(prev, cur, None)])"
| "scan prev cur (c # cs) =
     (if is_word_char c then scan prev (cur @ [c]) cs
      else (if cur = [] then [] else [(prev, cur, Some c)]) @ scan (Some c) [] cs)"

fun is_template :: "char option \<times> string \<times> char option \<Rightarrow> bool" where
  "is_template (b, wd, a) = (b = Some (CHR ''{'') \<and> a = Some (CHR ''}''))"

fun is_reference :: "char option \<times> string \<times> char option \<Rightarrow> bool" where
  "is_reference (b, wd, a) =
     (a \<noteq> Some (CHR ''('') \<and> \<not> is_template (b, wd, a) \<and> \<not> list_all is_digit wd)"

definition references :: "string \<Rightarrow> string list" where
  "references e = map (fst \<circ> snd) (filter is_reference (scan None [] e))"

definition template_items :: "string \<Rightarrow> string list" where
  "template_items e = map (fst \<circ> snd) (filter is_template (scan None [] e))"

text \<open>
  The columns of the monitored table that the notebook names: the timestamp column
  (line 84), the slicing column (line 75), and the columns its text and its metrics use.
  The table itself is made by another notebook.
\<close>

definition table_columns :: "string list" where
  "table_columns =
     [''TransactionDate'', ''Category'', ''Price'', ''Discount'', ''TotalPurchaseAmount'',
      ''PreferredPaymentMethod'', ''PaymentMethod'']"

text \<open>
  A metric reads the table when its expression refers to a column, or takes the column
  through \<^verbatim>\<open>{{input_column}}\<close>.
\<close>

definition reads_table :: "MonitorMetric \<Rightarrow> bool" where
  "reads_table m =
     (list_ex (\<lambda>r. r \<in> set table_columns) (references (definition_sql m))
      \<or> ''input_column'' \<in> set (template_items (definition_sql m)))"

text \<open>
  A derived or drift metric builds on the metrics before it when its expression refers
  to at least one name, and each name it refers to is that of an aggregate or derived
  metric earlier in the batch.
\<close>

definition builds_on :: "MonitorMetric list \<Rightarrow> MonitorMetric \<Rightarrow> bool" where
  "builds_on earlier m =
     (references (definition_sql m) \<noteq> [] \<and>
      list_all
        (\<lambda>r. r \<in> set (map name (filter (\<lambda>p. type_m p \<noteq> CUSTOM_METRIC_TYPE_DRIFT) earlier)))
        (references (definition_sql m)))"

fun layered :: "MonitorMetric list \<Rightarrow> MonitorMetric list \<Rightarrow> bool" where
  "layered earlier [] = True"
| "layered earlier (m # ms) =
     ((if type_m m = CUSTOM_METRIC_TYPE_AGGREGATE then True
       else builds_on earlier m \<and> \<not> reads_table m)
      \<and> layered (earlier @ [m]) ms)"

text \<open>Only aggregate metrics read the table.\<close>

definition aggregates_alone_read_table :: "MonitorMetric list \<Rightarrow> bool" where
  "aggregates_alone_read_table ms =
     list_all (\<lambda>m. type_m m = CUSTOM_METRIC_TYPE_AGGREGATE \<or> \<not> reads_table m) ms"

subsection \<open>Services and states to run the program on\<close>

text \<open>
  A service that answers from a script: the \<open>k\<close>-th answer of the list, and the given
  last answer from then on.
\<close>

definition scripted :: "'a list \<Rightarrow> 'a \<Rightarrow> nat \<Rightarrow> 'a" where
  "scripted xs d k = (if k < length xs then xs ! k else d)"

definition info_of :: "MonitorInfoStatus \<Rightarrow> MonitorInfo" where
  "info_of st =
     \<lparr>status = st,
      profile_metrics_table_name = ''silver_transaction_profile_metrics'',
      drift_metrics_table_name = ''silver_transaction_drift_metrics''\<rparr>"

definition run_of :: "int \<Rightarrow> MonitorRefreshInfoState \<Rightarrow> MonitorRefreshInfo" where
  "run_of i st = \<lparr>refresh_id = i, state = st\<rparr>"

definition example_service ::
  "error + MonitorInfo \<Rightarrow> MonitorInfoStatus list \<Rightarrow> MonitorInfoStatus \<Rightarrow>
   MonitorRefreshInfo list \<Rightarrow> MonitorRefreshInfoState list \<Rightarrow> MonitorRefreshInfoState \<Rightarrow> service" where
  "example_service created sts st runs rsts rst =
     \<lparr>create_result = created,
      get_result = (\<lambda>k. info_of (scripted sts st k)),
      list_refreshes_result = runs,
      get_refresh_result = (\<lambda>k i. run_of i (scripted rsts rst k)),
      update_result = (\<lambda>ms. Inr (info_of MONITOR_STATUS_ACTIVE)),
      run_refresh_result = run_of 9 PENDING\<rparr>"

text \<open>
  A state in which one client has been constructed and bound to \<^verbatim>\<open>w\<close>, the service
  has answered nothing yet and \<^verbatim>\<open>lhm_monitor\<close> is unbound.
\<close>

definition world0 :: world where
  "world0 =
     \<lparr>TABLE_NAME = ''main.demo.silver_transaction'', w = 0, clients = 1, gets = 0,
      refresh_gets = 0, lhm_monitor = None, trace = []\<rparr>"

text \<open>The monitor never leaves PENDING, a refresh never leaves RUNNING.\<close>

definition stuck_service :: service where
  "stuck_service =
     example_service (Inr (info_of MONITOR_STATUS_PENDING)) [] MONITOR_STATUS_PENDING
       [run_of 7 RUNNING] [] RUNNING"

text \<open>The monitor is PENDING once, then ACTIVE; the first refresh is done.\<close>

definition quick_service :: service where
  "quick_service =
     example_service (Inr (info_of MONITOR_STATUS_PENDING))
       [MONITOR_STATUS_PENDING] MONITOR_STATUS_ACTIVE
       [run_of 7 SUCCESS, run_of 8 RUNNING] [] SUCCESS"

text \<open>
  The monitor is PENDING twice, then ACTIVE; a refresh is RUNNING twice, then done.
\<close>

definition slow_service :: service where
  "slow_service =
     example_service (Inr (info_of MONITOR_STATUS_PENDING))
       [MONITOR_STATUS_PENDING, MONITOR_STATUS_PENDING] MONITOR_STATUS_ACTIVE
       [run_of 7 PENDING, run_of 8 RUNNING] [RUNNING, RUNNING] SUCCESS"

text \<open>The monitor is PENDING once, then FAILED.\<close>

definition failing_service :: service where
  "failing_service =
     example_service (Inr (info_of MONITOR_STATUS_PENDING))
       [MONITOR_STATUS_PENDING] MONITOR_STATUS_FAILED [] [] FAILED"

text \<open>
  \<^verbatim>\<open>create\<close> is refused, yet a monitor of the table exists and is ACTIVE, its first
  refresh done.
\<close>

definition refusing_service :: service where
  "refusing_service =
     example_service (Inl (ConfigurationError ''PERMISSION_DENIED'')) [] MONITOR_STATUS_ACTIVE
       [run_of 7 SUCCESS] [] SUCCESS"

text \<open>The monitor is PENDING once, then in ERROR; a refresh is CANCELED.\<close>

definition erring_service :: service where
  "erring_service =
     example_service (Inr (info_of MONITOR_STATUS_PENDING))
       [MONITOR_STATUS_PENDING] MONITOR_STATUS_ERROR [] [] CANCELED"

text \<open>As \<open>quick_service\<close>, but \<^verbatim>\<open>update\<close> is refused.\<close>

definition rejecting_service :: service where
  "rejecting_service =
     quick_service\<lparr>update_result := (\<lambda>ms. Inl (ConfigurationError ''INVALID_PARAMETER_VALUE''))\<rparr>"

text \<open>The monitor is ACTIVE at once and has no refresh.\<close>

definition no_refresh_service :: service where
  "no_refresh_service =
     example_service (Inr (info_of MONITOR_STATUS_ACTIVE)) [] MONITOR_STATUS_ACTIVE [] [] SUCCESS"

section \<open>Properties\<close>

subsection \<open>The monitor loop\<close>

lemma monitor_poll_stop:
  "status info \<noteq> MONITOR_STATUS_PENDING \<Longrightarrow> monitor_poll svc info s = Some (info, s)"
  by (subst monitor_poll.simps) simp

lemma monitor_poll_step:
  "status info = MONITOR_STATUS_PENDING \<Longrightarrow>
   monitor_poll svc info s =
     monitor_poll svc (get_result svc (gets s))
       (s\<lparr>gets := Suc (gets s), trace := trace s @ [Get (w s), Sleep 10]\<rparr>)"
  by (subst monitor_poll.simps) (simp add: quality_monitors_get_def sleep_def emit_def)

lemma monitor_poll_run:
  "\<forall>k<n. status (get_result svc (gets s + k)) = MONITOR_STATUS_PENDING \<Longrightarrow>
   status (get_result svc (gets s + n)) \<noteq> MONITOR_STATUS_PENDING \<Longrightarrow>
   status info = MONITOR_STATUS_PENDING \<Longrightarrow>
   monitor_poll svc info s =
     Some (get_result svc (gets s + n),
           s\<lparr>gets := gets s + Suc n, trace := trace s @ concat (replicate (Suc n) [Get (w s), Sleep 10])\<rparr>)"
proof (induction n arbitrary: info s)
  case 0
  then show ?case by (simp add: monitor_poll_step monitor_poll_stop)
next
  case (Suc n)
  let ?s = "s\<lparr>gets := Suc (gets s), trace := trace s @ [Get (w s), Sleep 10]\<rparr>"
  have p: "status (get_result svc (gets s)) = MONITOR_STATUS_PENDING"
    using Suc.prems(1) [rule_format, of 0] by simp
  have a: "\<forall>k<n. status (get_result svc (gets ?s + k)) = MONITOR_STATUS_PENDING"
  proof (intro allI impI)
    fix k assume "k < n"
    then show "status (get_result svc (gets ?s + k)) = MONITOR_STATUS_PENDING"
      using Suc.prems(1) [rule_format, of "Suc k"] by simp
  qed
  have b: "status (get_result svc (gets ?s + n)) \<noteq> MONITOR_STATUS_PENDING"
    using Suc.prems(2) by simp
  show ?case
    by (simp add: monitor_poll_step [OF Suc.prems(3)] Suc.IH [OF a b p])
qed

lemma awaitActive_leaves:
  assumes pend: "\<forall>k<n. status (get_result svc (gets s + k)) = MONITOR_STATUS_PENDING"
    and leave: "status (get_result svc (gets s + n)) \<noteq> MONITOR_STATUS_PENDING"
  shows "awaitActive svc s =
     Some (if status (get_result svc (gets s + n)) = MONITOR_STATUS_ACTIVE
           then Inr (get_result svc (gets s + n))
           else Inl (AssertionError ''Error creating monitor''),
           s\<lparr>gets := gets s + Suc n,
             trace := trace s @ Get (w s) # concat (replicate n [Get (w s), Sleep 10])\<rparr>)"
proof (cases n)
  case 0
  with leave show ?thesis
    by (simp add: awaitActive_def quality_monitors_get_def emit_def monitor_poll_stop)
next
  case (Suc m)
  let ?s = "s\<lparr>gets := Suc (gets s), trace := trace s @ [Get (w s)]\<rparr>"
  have p: "status (get_result svc (gets s)) = MONITOR_STATUS_PENDING"
    using pend [rule_format, of 0] Suc by simp
  have a: "\<forall>k<m. status (get_result svc (gets ?s + k)) = MONITOR_STATUS_PENDING"
  proof (intro allI impI)
    fix k assume "k < m"
    then show "status (get_result svc (gets ?s + k)) = MONITOR_STATUS_PENDING"
      using pend [rule_format, of "Suc k"] Suc by simp
  qed
  have b: "status (get_result svc (gets ?s + m)) \<noteq> MONITOR_STATUS_PENDING"
    using leave Suc by simp
  show ?thesis
    using Suc monitor_poll_run [OF a b p]
    by (simp add: awaitActive_def quality_monitors_get_def emit_def)
qed

lemma monitor_poll_Some_leaves:
  assumes "monitor_poll svc info s = Some y"
  shows "\<not> (status info = MONITOR_STATUS_PENDING \<and>
            (\<forall>k. status (get_result svc (gets s + k)) = MONITOR_STATUS_PENDING))"
proof (rule monitor_poll.raw_induct
    [where P = "\<lambda>svc info s y. \<not> (status info = MONITOR_STATUS_PENDING \<and>
            (\<forall>k. status (get_result svc (gets s + k)) = MONITOR_STATUS_PENDING))", OF _ assms])
  fix f :: "service \<Rightarrow> MonitorInfo \<Rightarrow> world \<Rightarrow> (MonitorInfo \<times> world) option"
  fix svc info s y
  assume IH: "\<And>svc info s y. f svc info s = Some y \<Longrightarrow>
      \<not> (status info = MONITOR_STATUS_PENDING \<and>
            (\<forall>k. status (get_result svc (gets s + k)) = MONITOR_STATUS_PENDING))"
    and body: "(if status info = MONITOR_STATUS_PENDING
      then (case quality_monitors_get svc s of
              (info', s') \<Rightarrow> f svc info' (sleep 10 s'))
      else Some (info, s)) = Some y"
  show "\<not> (status info = MONITOR_STATUS_PENDING \<and>
            (\<forall>k. status (get_result svc (gets s + k)) = MONITOR_STATUS_PENDING))"
  proof
    assume h: "status info = MONITOR_STATUS_PENDING \<and>
            (\<forall>k. status (get_result svc (gets s + k)) = MONITOR_STATUS_PENDING)"
    let ?s = "s\<lparr>gets := Suc (gets s), trace := trace s @ [Get (w s), Sleep 10]\<rparr>"
    from h body have r: "f svc (get_result svc (gets s)) ?s = Some y"
      by (simp add: quality_monitors_get_def sleep_def emit_def)
    have "status (get_result svc (gets s)) = MONITOR_STATUS_PENDING"
      using h [THEN conjunct2, rule_format, of 0] by simp
    moreover have "\<forall>k. status (get_result svc (gets ?s + k)) = MONITOR_STATUS_PENDING"
    proof
      fix k show "status (get_result svc (gets ?s + k)) = MONITOR_STATUS_PENDING"
        using h [THEN conjunct2, rule_format, of "Suc k"] by simp
    qed
    ultimately show False using IH [OF r] by blast
  qed
qed

lemma awaitActive_stuck:
  assumes "\<forall>k. status (get_result svc (gets s + k)) = MONITOR_STATUS_PENDING"
  shows "awaitActive svc s = None"
proof -
  let ?s = "s\<lparr>gets := Suc (gets s), trace := trace s @ [Get (w s)]\<rparr>"
  have p: "status (get_result svc (gets s)) = MONITOR_STATUS_PENDING"
    using assms [rule_format, of 0] by simp
  have a: "\<forall>k. status (get_result svc (gets ?s + k)) = MONITOR_STATUS_PENDING"
  proof
    fix k show "status (get_result svc (gets ?s + k)) = MONITOR_STATUS_PENDING"
      using assms [rule_format, of "Suc k"] by simp
  qed
  have "monitor_poll svc (get_result svc (gets s)) ?s = None"
  proof (cases "monitor_poll svc (get_result svc (gets s)) ?s")
    case None then show ?thesis .
  next
    case (Some y)
    from monitor_poll_Some_leaves [OF Some] p a show ?thesis by blast
  qed
  then show ?thesis
    by (simp add: awaitActive_def quality_monitors_get_def emit_def)
qed

lemma awaitActive_None_iff:
  "awaitActive svc s = None \<longleftrightarrow>
     (\<forall>k. status (get_result svc (gets s + k)) = MONITOR_STATUS_PENDING)"
proof
  assume none: "awaitActive svc s = None"
  show "\<forall>k. status (get_result svc (gets s + k)) = MONITOR_STATUS_PENDING"
  proof (rule ccontr)
    assume "\<not> (\<forall>k. status (get_result svc (gets s + k)) = MONITOR_STATUS_PENDING)"
    then have ex: "\<exists>k. status (get_result svc (gets s + k)) \<noteq> MONITOR_STATUS_PENDING" by blast
    define n where "n = (LEAST k. status (get_result svc (gets s + k)) \<noteq> MONITOR_STATUS_PENDING)"
    have leave: "status (get_result svc (gets s + n)) \<noteq> MONITOR_STATUS_PENDING"
      unfolding n_def using ex by (rule LeastI_ex)
    have pend: "\<forall>k<n. status (get_result svc (gets s + k)) = MONITOR_STATUS_PENDING"
      unfolding n_def using not_less_Least by blast
    from awaitActive_leaves [OF pend leave] none show False by simp
  qed
next
  assume "\<forall>k. status (get_result svc (gets s + k)) = MONITOR_STATUS_PENDING"
  then show "awaitActive svc s = None" by (rule awaitActive_stuck)
qed

subsection \<open>The refresh loop\<close>

lemma refresh_poll_stop:
  "state r \<notin> {PENDING, RUNNING} \<Longrightarrow> refresh_poll svc r s = Some (r, s)"
  by (subst refresh_poll.simps) simp

lemma refresh_poll_step:
  "state r \<in> {PENDING, RUNNING} \<Longrightarrow>
   refresh_poll svc r s =
     refresh_poll svc (get_refresh_result svc (refresh_gets s) (refresh_id r))
       (s\<lparr>refresh_gets := Suc (refresh_gets s),
          trace := trace s @ [GetRefresh (w s) (refresh_id r), Sleep 30]\<rparr>)"
  by (subst refresh_poll.simps)
     (auto simp add: quality_monitors_get_refresh_def sleep_def emit_def)

lemma refresh_poll_run:
  "\<forall>k<n. state (refresh_seq svc (refresh_gets s) r k) \<in> {PENDING, RUNNING} \<Longrightarrow>
   state (refresh_seq svc (refresh_gets s) r n) \<notin> {PENDING, RUNNING} \<Longrightarrow>
   refresh_poll svc r s =
     Some (refresh_seq svc (refresh_gets s) r n,
           s\<lparr>refresh_gets := refresh_gets s + n,
             trace := trace s @ refresh_events svc (w s) (refresh_gets s) r n\<rparr>)"
proof (induction n arbitrary: r s)
  case 0
  then show ?case by (simp add: refresh_poll_stop)
next
  case (Suc n)
  let ?r = "get_refresh_result svc (refresh_gets s) (refresh_id r)"
  let ?s = "s\<lparr>refresh_gets := Suc (refresh_gets s),
          trace := trace s @ [GetRefresh (w s) (refresh_id r), Sleep 30]\<rparr>"
  have p: "state r \<in> {PENDING, RUNNING}"
    using Suc.prems(1) [rule_format, of 0] by simp
  have a: "\<forall>k<n. state (refresh_seq svc (refresh_gets ?s) ?r k) \<in> {PENDING, RUNNING}"
  proof (intro allI impI)
    fix k assume "k < n"
    then show "state (refresh_seq svc (refresh_gets ?s) ?r k) \<in> {PENDING, RUNNING}"
      using Suc.prems(1) [rule_format, of "Suc k"] by simp
  qed
  have b: "state (refresh_seq svc (refresh_gets ?s) ?r n) \<notin> {PENDING, RUNNING}"
    using Suc.prems(2) by simp
  show ?case
    by (simp add: refresh_poll_step [OF p] Suc.IH [OF a b])
qed

lemma refresh_poll_Some_leaves:
  assumes "refresh_poll svc r s = Some y"
  shows "\<not> (\<forall>k. state (refresh_seq svc (refresh_gets s) r k) \<in> {PENDING, RUNNING})"
proof (rule refresh_poll.raw_induct
    [where P = "\<lambda>svc r s y.
       \<not> (\<forall>k. state (refresh_seq svc (refresh_gets s) r k) \<in> {PENDING, RUNNING})", OF _ assms])
  fix f :: "service \<Rightarrow> MonitorRefreshInfo \<Rightarrow> world \<Rightarrow> (MonitorRefreshInfo \<times> world) option"
  fix svc r s y
  assume IH: "\<And>svc r s y. f svc r s = Some y \<Longrightarrow>
      \<not> (\<forall>k. state (refresh_seq svc (refresh_gets s) r k) \<in> {PENDING, RUNNING})"
    and body: "(if state r = PENDING \<or> state r = RUNNING
      then (case quality_monitors_get_refresh svc (refresh_id r) s of
              (r', s') \<Rightarrow> f svc r' (sleep 30 s'))
      else Some (r, s)) = Some y"
  show "\<not> (\<forall>k. state (refresh_seq svc (refresh_gets s) r k) \<in> {PENDING, RUNNING})"
  proof
    assume h: "\<forall>k. state (refresh_seq svc (refresh_gets s) r k) \<in> {PENDING, RUNNING}"
    let ?r = "get_refresh_result svc (refresh_gets s) (refresh_id r)"
    let ?s = "s\<lparr>refresh_gets := Suc (refresh_gets s),
          trace := trace s @ [GetRefresh (w s) (refresh_id r), Sleep 30]\<rparr>"
    have p: "state r = PENDING \<or> state r = RUNNING"
      using h [rule_format, of 0] by simp
    with body have run: "f svc ?r ?s = Some y"
      by (simp add: quality_monitors_get_refresh_def sleep_def emit_def)
    have "\<forall>k. state (refresh_seq svc (refresh_gets ?s) ?r k) \<in> {PENDING, RUNNING}"
    proof
      fix k show "state (refresh_seq svc (refresh_gets ?s) ?r k) \<in> {PENDING, RUNNING}"
        using h [rule_format, of "Suc k"] by simp
    qed
    with IH [OF run] show False by blast
  qed
qed

lemma awaitRefresh_leaves:
  assumes "\<forall>k<n. state (refresh_seq svc (refresh_gets s) r k) \<in> {PENDING, RUNNING}"
    and "state (refresh_seq svc (refresh_gets s) r n) \<notin> {PENDING, RUNNING}"
  shows "awaitRefresh svc r s =
     Some (if state (refresh_seq svc (refresh_gets s) r n) = SUCCESS
           then Inr (refresh_seq svc (refresh_gets s) r n)
           else Inl (AssertionError ''Monitor refresh failed''),
           s\<lparr>refresh_gets := refresh_gets s + n,
             trace := trace s @ refresh_events svc (w s) (refresh_gets s) r n\<rparr>)"
  by (simp add: awaitRefresh_def refresh_poll_run [OF assms])

lemma awaitRefresh_stuck:
  assumes "\<forall>k. state (refresh_seq svc (refresh_gets s) r k) \<in> {PENDING, RUNNING}"
  shows "awaitRefresh svc r s = None"
proof (cases "refresh_poll svc r s")
  case None
  then show ?thesis by (simp add: awaitRefresh_def)
next
  case (Some y)
  from refresh_poll_Some_leaves [OF Some] assms show ?thesis by blast
qed

lemma awaitRefresh_None_iff:
  "awaitRefresh svc r s = None \<longleftrightarrow>
     (\<forall>k. state (refresh_seq svc (refresh_gets s) r k) \<in> {PENDING, RUNNING})"
proof
  assume none: "awaitRefresh svc r s = None"
  show "\<forall>k. state (refresh_seq svc (refresh_gets s) r k) \<in> {PENDING, RUNNING}"
  proof (rule ccontr)
    assume "\<not> (\<forall>k. state (refresh_seq svc (refresh_gets s) r k) \<in> {PENDING, RUNNING})"
    then have ex: "\<exists>k. state (refresh_seq svc (refresh_gets s) r k) \<notin> {PENDING, RUNNING}"
      by blast
    define n where
      "n = (LEAST k. state (refresh_seq svc (refresh_gets s) r k) \<notin> {PENDING, RUNNING})"
    have leave: "state (refresh_seq svc (refresh_gets s) r n) \<notin> {PENDING, RUNNING}"
      unfolding n_def using ex by (rule LeastI_ex)
    have pend: "\<forall>k<n. state (refresh_seq svc (refresh_gets s) r k) \<in> {PENDING, RUNNING}"
      unfolding n_def using not_less_Least by blast
    from awaitRefresh_leaves [OF pend leave] none show False by simp
  qed
next
  assume "\<forall>k. state (refresh_seq svc (refresh_gets s) r k) \<in> {PENDING, RUNNING}"
  then show "awaitRefresh svc r s = None" by (rule awaitRefresh_stuck)
qed

lemma refresh_seq_same_id:
  "\<forall>k i. refresh_id (get_refresh_result svc k i) = i \<Longrightarrow>
   refresh_id (refresh_seq svc g r n) = refresh_id r"
  by (induction n arbitrary: g r) simp_all

lemma refresh_events_same_id:
  "\<forall>k i. refresh_id (get_refresh_result svc k i) = i \<Longrightarrow>
   refresh_events svc h g r n = concat (replicate n [GetRefresh h (refresh_id r), Sleep 30])"
  by (induction n arbitrary: g r) simp_all

subsection \<open>The errors the two waits can raise\<close>

lemma awaitActive_error:
  "awaitActive svc s = Some (Inl e, s') \<Longrightarrow> e = AssertionError ''Error creating monitor''"
  by (auto simp add: awaitActive_def split: prod.splits option.splits if_splits)

lemma awaitRefresh_error:
  "awaitRefresh svc r s = Some (Inl e, s') \<Longrightarrow> e = AssertionError ''Monitor refresh failed''"
  by (auto simp add: awaitRefresh_def split: prod.splits option.splits if_splits)

lemma refresh_seq_stays:
  "\<forall>k i. state (get_refresh_result svc k i) \<in> {PENDING, RUNNING} \<Longrightarrow>
   state r \<in> {PENDING, RUNNING} \<Longrightarrow>
   state (refresh_seq svc g r n) \<in> {PENDING, RUNNING}"
  by (induction n arbitrary: g r) simp_all

lemma all_less_2: "(\<forall>k<2::nat. P k) \<longleftrightarrow> P 0 \<and> P 1"
  by (auto simp add: numeral_2_eq_2 less_Suc_eq)

lemma all_less_3: "(\<forall>k<3::nat. P k) \<longleftrightarrow> P 0 \<and> P 1 \<and> P 2"
  by (auto simp add: numeral_3_eq_3 numeral_2_eq_2 less_Suc_eq)

subsection \<open>Unfolding the calls and the example services\<close>

lemmas example_defs =
  example_service_def scripted_def info_of_def run_of_def world0_def

lemmas call_defs =
  quality_monitors_create_def quality_monitors_get_def quality_monitors_list_refreshes_def
  quality_monitors_get_refresh_def quality_monitors_update_def quality_monitors_run_refresh_def
  WorkspaceClient_def sleep_def emit_def

subsection \<open>Sleeps and handles in a trace\<close>

lemma sleeps_append: "sleeps (xs @ ys) = sleeps xs @ sleeps ys"
  by (induction xs rule: sleeps.induct) simp_all

lemma sleeps_monitor_rounds: "sleeps (concat (replicate n [Get h, Sleep d])) = replicate n d"
  by (induction n) simp_all

lemma sleeps_refresh_events: "sleeps (refresh_events svc h g r n) = replicate n 30"
  by (induction n arbitrary: g r) simp_all

lemma refresh_events_handle:
  "GetRefresh h' i \<in> set (refresh_events svc h g r n) \<Longrightarrow> h' = h"
  by (induction n arbitrary: g r) auto

subsection \<open>Claims\<close>

text \<open>
  C1, as amended.  The loops have no timeout.  When the polled status never leaves the
  pending set (PENDING for the monitor; PENDING or RUNNING for the refresh run), the wait
  never returns and raises nothing; a wait fails to return exactly in that case, and no
  wait ever raises \<open>TimeoutError\<close>.
\<close>

theorem poll_loops_have_no_timeout:
  "(awaitActive svc s = None \<longleftrightarrow>
      (\<forall>k. status (get_result svc (gets s + k)) = MONITOR_STATUS_PENDING)) \<and>
   (awaitRefresh svc r s = None \<longleftrightarrow>
      (\<forall>k. state (refresh_seq svc (refresh_gets s) r k) \<in> {PENDING, RUNNING})) \<and>
   map_option fst (awaitActive svc s) \<noteq> Some (Inl TimeoutError) \<and>
   map_option fst (awaitRefresh svc r s) \<noteq> Some (Inl TimeoutError)"
proof -
  have a: "map_option fst (awaitActive svc s) \<noteq> Some (Inl TimeoutError)"
    using awaitActive_error [of svc s TimeoutError] by (cases "awaitActive svc s") auto
  have b: "map_option fst (awaitRefresh svc r s) \<noteq> Some (Inl TimeoutError)"
    using awaitRefresh_error [of svc r s TimeoutError] by (cases "awaitRefresh svc r s") auto
  from a b show ?thesis
    by (simp only: awaitActive_None_iff awaitRefresh_None_iff simp_thms)
qed

text \<open>
  C1 as stated fails: against a service whose monitor stays PENDING and whose refresh
  stays RUNNING, neither wait returns or raises, however long the caller is ready to wait.
\<close>

theorem stuck_polls_never_return:
  "awaitActive stuck_service world0 = None \<and>
   awaitRefresh stuck_service (run_of 7 RUNNING) world0 = None"
proof
  show "awaitActive stuck_service world0 = None"
    by (rule awaitActive_stuck)
       (simp add: stuck_service_def example_service_def scripted_def info_of_def)
  have "\<forall>k. state (refresh_seq stuck_service (refresh_gets world0) (run_of 7 RUNNING) k)
          \<in> {PENDING, RUNNING}"
    by (intro allI refresh_seq_stays)
       (simp_all add: stuck_service_def example_service_def scripted_def run_of_def)
  then show "awaitRefresh stuck_service (run_of 7 RUNNING) world0 = None"
    by (rule awaitRefresh_stuck)
qed

text \<open>
  C2, as amended.  When the status is PENDING on the first \<open>n\<close> fetches and ACTIVE on
  the next, that is on fetch \<open>N = n + 1\<close>, the wait returns that answer after exactly
  \<open>N\<close> fetches and \<open>N - 1\<close> sleeps of 10 seconds.  The sleeps are not between the
  fetches: the first two fetches follow each other directly, and each later fetch, the
  last one too, is followed by a sleep.
\<close>

theorem awaitActive_fetches_and_sleeps:
  assumes "\<forall>k<n. status (get_result svc (gets s + k)) = MONITOR_STATUS_PENDING"
    and "status (get_result svc (gets s + n)) = MONITOR_STATUS_ACTIVE"
  shows "awaitActive svc s =
     Some (Inr (get_result svc (gets s + n)),
           s\<lparr>gets := gets s + Suc n,
             trace := trace s @ Get (w s) # concat (replicate n [Get (w s), Sleep 10])\<rparr>)"
  using awaitActive_leaves [OF assms(1)] assms(2) by simp

text \<open>C2, as amended, at \<open>N = 3\<close>.\<close>

theorem awaitActive_fetches_and_sleeps_witness:
  "awaitActive slow_service world0 =
     Some (Inr (info_of MONITOR_STATUS_ACTIVE),
           world0\<lparr>gets := 3, trace := [Get 0, Get 0, Sleep 10, Get 0, Sleep 10]\<rparr>)"
proof -
  have a: "\<forall>k<2. status (get_result slow_service (gets world0 + k)) = MONITOR_STATUS_PENDING"
    by (simp add: all_less_2 slow_service_def example_service_def scripted_def info_of_def world0_def)
  have b: "status (get_result slow_service (gets world0 + 2)) = MONITOR_STATUS_ACTIVE"
    by (simp add: slow_service_def example_service_def scripted_def info_of_def world0_def)
  show ?thesis
    using awaitActive_fetches_and_sleeps [OF a b]
    by (simp add: slow_service_def example_service_def scripted_def world0_def numeral_2_eq_2)
qed

text \<open>
  C2 as stated fails at \<open>N = 2\<close>: no sleep separates the two fetches, and the one sleep
  comes after the last fetch.
\<close>

theorem awaitActive_sleeps_after_last_fetch:
  "map_option (trace \<circ> snd) (awaitActive quick_service world0) = Some [Get 0, Get 0, Sleep 10]"
proof -
  have a: "\<forall>k<1. status (get_result quick_service (gets world0 + k)) = MONITOR_STATUS_PENDING"
    by (simp add: quick_service_def example_service_def scripted_def info_of_def world0_def)
  have b: "status (get_result quick_service (gets world0 + 1)) \<noteq> MONITOR_STATUS_PENDING"
    by (simp add: quick_service_def example_service_def scripted_def info_of_def world0_def)
  show ?thesis
    by (simp only: awaitActive_leaves [OF a b]) (simp add: world0_def)
qed

text \<open>
  C3, as amended.  When the status is PENDING on the first \<open>n\<close> fetches and FAILED on
  the next, the wait raises \<open>AssertionError\<close> with the message of line 134, the error it
  raises for every status other than ACTIVE, and it fetches nothing after the fetch that
  saw FAILED.  When that fetch is made in the loop (\<open>n > 0\<close>), the sleep of 10 seconds
  that ends the round comes between the fetch and the error.
\<close>

theorem awaitActive_failed_raises_assertion:
  assumes "\<forall>k<n. status (get_result svc (gets s + k)) = MONITOR_STATUS_PENDING"
    and "status (get_result svc (gets s + n)) = MONITOR_STATUS_FAILED"
  shows "awaitActive svc s =
     Some (Inl (AssertionError ''Error creating monitor''),
           s\<lparr>gets := gets s + Suc n,
             trace := trace s @ Get (w s) # concat (replicate n [Get (w s), Sleep 10])\<rparr>)"
  using awaitActive_leaves [OF assms(1)] assms(2) by simp

text \<open>
  C3, as amended, for a monitor that is PENDING once and then FAILED.
\<close>

theorem awaitActive_failed_raises_assertion_witness:
  "awaitActive failing_service world0 =
     Some (Inl (AssertionError ''Error creating monitor''),
           world0\<lparr>gets := 2, trace := [Get 0, Get 0, Sleep 10]\<rparr>)"
proof -
  have a: "\<forall>k<1. status (get_result failing_service (gets world0 + k)) = MONITOR_STATUS_PENDING"
    by (simp add: failing_service_def example_defs)
  have b: "status (get_result failing_service (gets world0 + 1)) = MONITOR_STATUS_FAILED"
    by (simp add: failing_service_def example_defs)
  show ?thesis
    using awaitActive_failed_raises_assertion [OF a b]
    by (simp add: world0_def)
qed

text \<open>
  C3 as stated fails for a monitor that is PENDING once and then FAILED: the error is the
  \<open>AssertionError\<close> of line 134, not a \<open>ResourceFailedError\<close>, and it is not raised at
  once: the program sleeps 10 seconds after the fetch that saw FAILED.
\<close>

theorem awaitActive_failed_is_no_ResourceFailedError:
  "map_option fst (awaitActive failing_service world0) =
     Some (Inl (AssertionError ''Error creating monitor'')) \<and>
   map_option fst (awaitActive failing_service world0) \<noteq> Some (Inl ResourceFailedError) \<and>
   map_option (trace \<circ> snd) (awaitActive failing_service world0) =
     Some [Get 0, Get 0, Sleep 10]"
proof -
  have a: "\<forall>k<1. status (get_result failing_service (gets world0 + k)) = MONITOR_STATUS_PENDING"
    by (simp add: failing_service_def example_defs)
  have b: "status (get_result failing_service (gets world0 + 1)) \<noteq> MONITOR_STATUS_PENDING"
    by (simp add: failing_service_def example_defs)
  show ?thesis
    by (simp only: awaitActive_leaves [OF a b]) (simp add: failing_service_def example_defs)
qed

text \<open>
  C4, as amended.  When \<^verbatim>\<open>create\<close> or \<^verbatim>\<open>update\<close> raises, the program catches the
  exception and prints it.  The call is made once and not retried, nothing is raised to
  the caller, \<^verbatim>\<open>lhm_monitor\<close> stays as it was, and the program goes on with the
  statements after the call.
\<close>

theorem create_and_update_catch_every_error:
  "(create_result svc = Inl e \<longrightarrow>
      create_monitor svc s =
        (Inr (),
         s\<lparr>w := clients s, clients := Suc (clients s),
           trace := trace s @
             [Print (''Creating monitor for '' @ TABLE_NAME s), NewClient (clients s),
              Create (clients s), Print (str e)]\<rparr>)) \<and>
   (update_result svc custom_metrics = Inl e \<longrightarrow>
      update_monitor svc s =
        (Inr (), s\<lparr>trace := trace s @ [Update (w s) custom_metrics, Print (str e)]\<rparr>)) \<and>
   fst (create_monitor svc s) = Inr () \<and>
   fst (update_monitor svc s) = Inr ()"
  by (auto simp add: create_monitor_def update_monitor_def call_defs Let_def
      split: sum.splits)

text \<open>
  C4, as amended, for a refused \<^verbatim>\<open>create\<close> and for a refused \<^verbatim>\<open>update\<close>.
\<close>

theorem create_and_update_catch_every_error_witness:
  "create_monitor refusing_service world0 =
     (Inr (),
      world0\<lparr>w := 1, clients := 2,
        trace := [Print ''Creating monitor for main.demo.silver_transaction'', NewClient 1,
                  Create 1, Print ''PERMISSION_DENIED'']\<rparr>) \<and>
   update_monitor rejecting_service world0 =
     (Inr (),
      world0\<lparr>trace := [Update 0 custom_metrics, Print ''INVALID_PARAMETER_VALUE'']\<rparr>)"
proof -
  have a: "create_result refusing_service = Inl (ConfigurationError ''PERMISSION_DENIED'')"
    by (simp add: refusing_service_def example_defs)
  have b: "update_result rejecting_service custom_metrics =
      Inl (ConfigurationError ''INVALID_PARAMETER_VALUE'')"
    by (simp add: rejecting_service_def)
  from create_and_update_catch_every_error [of refusing_service _ world0, THEN conjunct1] a
    create_and_update_catch_every_error [of rejecting_service _ world0, THEN conjunct2, THEN conjunct1] b
  show ?thesis
    by (simp add: world0_def)
qed

text \<open>
  C4 as stated fails: after a refused \<^verbatim>\<open>create\<close> the cell ends without an error and
  the notebook goes on to poll the monitor and to list its refreshes.  Here it stops only
  at line 162, on the name that the refused call has left unbound.
\<close>

theorem notebook_runs_on_after_refused_create:
  "fst (create_monitor refusing_service world0) = Inr () \<and>
   map_option (trace \<circ> snd) (notebook refusing_service world0) =
     Some [NewClient 1, Print ''Creating monitor for main.demo.silver_transaction'',
           NewClient 2, Create 2, Print ''PERMISSION_DENIED'', Get 2, ListRefreshes 2] \<and>
   map_option fst (notebook refusing_service world0) = Some (Inl (NameError ''lhm_monitor''))"
  by (simp add: notebook_def create_monitor_def wait_for_monitor_def awaitActive_def
      first_refresh_def awaitRefresh_def show_metrics_def monitor_poll_stop refresh_poll_stop
      call_defs refusing_service_def example_defs Let_def)

text \<open>
  C6.  In the batch of lines 385-392, the expression of every derived and of every drift
  metric refers only to names of aggregate or derived metrics that stand earlier in the
  batch, and to no column of the table; the metrics that read the table are aggregate
  metrics.
\<close>

theorem custom_metrics_are_layered:
  "layered [] custom_metrics \<and> aggregates_alone_read_table custom_metrics"
  by code_simp

text \<open>
  C6 for the derived metric \<open>std\<close>: it refers to \<open>variance\<close>, the aggregate metric
  before it.
\<close>

theorem custom_metrics_are_layered_witness:
  "builds_on
     [avg_price_after_discount_agg, log_price_after_discount_derived,
      log_price_after_discount_delta_drift, variance_metric_agg]
     std_metric_derived \<and>
   reads_table std_metric_derived = False \<and>
   references (definition_sql std_metric_derived) = [''variance'']"
proof -
  have t: "type_m avg_price_after_discount_agg = CUSTOM_METRIC_TYPE_AGGREGATE"
    "type_m log_price_after_discount_derived = CUSTOM_METRIC_TYPE_DERIVED"
    "type_m log_price_after_discount_delta_drift = CUSTOM_METRIC_TYPE_DRIFT"
    "type_m variance_metric_agg = CUSTOM_METRIC_TYPE_AGGREGATE"
    "type_m std_metric_derived = CUSTOM_METRIC_TYPE_DERIVED"
    by (simp_all add: avg_price_after_discount_agg_def log_price_after_discount_derived_def
        log_price_after_discount_delta_drift_def variance_metric_agg_def std_metric_derived_def)
  have r: "references (definition_sql std_metric_derived) = [''variance'']"
    by code_simp
  from custom_metrics_are_layered have "layered [] custom_metrics" by blast
  then have "builds_on
     [avg_price_after_discount_agg, log_price_after_discount_derived,
      log_price_after_discount_delta_drift, variance_metric_agg]
     std_metric_derived \<and> \<not> reads_table std_metric_derived"
    by (simp add: custom_metrics_def t)
  with r show ?thesis by simp
qed

text \<open>
  C7.  \<^verbatim>\<open>run_refresh\<close> is called through the handle bound to \<^verbatim>\<open>w\<close>; the next
  thing the program does is to construct a client and bind it to \<^verbatim>\<open>w\<close>, and the wait
  for the refresh starts from there.  The new handle differs from the one that requested
  the refresh, which the program holds no longer; every poll of the refresh goes through
  the new handle.
\<close>

theorem refresh_polls_use_fresh_client:
  assumes "w s < clients s"
  shows "refresh_monitor svc s =
       awaitRefresh svc (run_refresh_result svc)
         (s\<lparr>w := clients s, clients := Suc (clients s),
            trace := trace s @ [RunRefresh (w s), NewClient (clients s)]\<rparr>) \<and>
     clients s \<noteq> w s \<and>
     ((\<forall>k<n. state (refresh_seq svc (refresh_gets s) (run_refresh_result svc) k)
            \<in> {PENDING, RUNNING}) \<and>
      state (refresh_seq svc (refresh_gets s) (run_refresh_result svc) n)
            \<notin> {PENDING, RUNNING} \<longrightarrow>
      refresh_monitor svc s =
        Some (if state (refresh_seq svc (refresh_gets s) (run_refresh_result svc) n) = SUCCESS
              then Inr (refresh_seq svc (refresh_gets s) (run_refresh_result svc) n)
              else Inl (AssertionError ''Monitor refresh failed''),
              s\<lparr>w := clients s, clients := Suc (clients s),
                refresh_gets := refresh_gets s + n,
                trace := trace s @ RunRefresh (w s) # NewClient (clients s) #
                  refresh_events svc (clients s) (refresh_gets s) (run_refresh_result svc) n\<rparr>)) \<and>
     (\<forall>h i. GetRefresh h i \<in>
         set (refresh_events svc (clients s) (refresh_gets s) (run_refresh_result svc) n) \<longrightarrow>
         h = clients s)"
proof -
  let ?s = "s\<lparr>w := clients s, clients := Suc (clients s),
            trace := trace s @ [RunRefresh (w s), NewClient (clients s)]\<rparr>"
  have start: "refresh_monitor svc s = awaitRefresh svc (run_refresh_result svc) ?s"
    by (simp add: refresh_monitor_def quality_monitors_run_refresh_def WorkspaceClient_def
        emit_def)
  have fresh: "clients s \<noteq> w s"
    using assms by simp
  have run: "refresh_monitor svc s =
        Some (if state (refresh_seq svc (refresh_gets s) (run_refresh_result svc) n) = SUCCESS
              then Inr (refresh_seq svc (refresh_gets s) (run_refresh_result svc) n)
              else Inl (AssertionError ''Monitor refresh failed''),
              s\<lparr>w := clients s, clients := Suc (clients s),
                refresh_gets := refresh_gets s + n,
                trace := trace s @ RunRefresh (w s) # NewClient (clients s) #
                  refresh_events svc (clients s) (refresh_gets s) (run_refresh_result svc) n\<rparr>)"
    if pend: "\<forall>k<n. state (refresh_seq svc (refresh_gets s) (run_refresh_result svc) k)
            \<in> {PENDING, RUNNING}"
      and leave: "state (refresh_seq svc (refresh_gets s) (run_refresh_result svc) n)
            \<notin> {PENDING, RUNNING}"
  proof -
    have a: "\<forall>k<n. state (refresh_seq svc (refresh_gets ?s) (run_refresh_result svc) k)
            \<in> {PENDING, RUNNING}"
      using pend by simp
    have b: "state (refresh_seq svc (refresh_gets ?s) (run_refresh_result svc) n)
            \<notin> {PENDING, RUNNING}"
      using leave by simp
    show ?thesis
      by (simp add: start awaitRefresh_leaves [OF a b])
  qed
  from start fresh run refresh_events_handle show ?thesis by blast
qed

text \<open>
  C7 for a refresh that is pending three times: the request goes through handle 0, the
  three polls through the new handle 1.
\<close>

theorem refresh_polls_use_fresh_client_witness:
  "refresh_monitor slow_service world0 =
     Some (Inr (run_of 9 SUCCESS),
           world0\<lparr>w := 1, clients := 2, refresh_gets := 3,
             trace := [RunRefresh 0, NewClient 1, GetRefresh 1 9, Sleep 30,
                       GetRefresh 1 9, Sleep 30, GetRefresh 1 9, Sleep 30]\<rparr>)"
proof -
  have h: "w world0 < clients world0"
    by (simp add: world0_def)
  have c: "\<forall>k<3. state (refresh_seq slow_service (refresh_gets world0)
              (run_refresh_result slow_service) k) \<in> {PENDING, RUNNING}"
    by (subst all_less_3) (simp add: slow_service_def example_defs eval_nat_numeral)
  have d: "state (refresh_seq slow_service (refresh_gets world0)
              (run_refresh_result slow_service) 3) \<notin> {PENDING, RUNNING}"
    by (simp add: slow_service_def example_defs eval_nat_numeral)
  have run: "refresh_monitor slow_service world0 =
        Some (if state (refresh_seq slow_service (refresh_gets world0)
                    (run_refresh_result slow_service) 3) = SUCCESS
              then Inr (refresh_seq slow_service (refresh_gets world0)
                    (run_refresh_result slow_service) 3)
              else Inl (AssertionError ''Monitor refresh failed''),
              world0\<lparr>w := clients world0, clients := Suc (clients world0),
                refresh_gets := refresh_gets world0 + 3,
                trace := trace world0 @ RunRefresh (w world0) # NewClient (clients world0) #
                  refresh_events slow_service (clients world0) (refresh_gets world0)
                    (run_refresh_result slow_service) 3\<rparr>)"
    using refresh_polls_use_fresh_client [OF h, of slow_service 3] c d by blast
  show ?thesis
    by (simp only: run) (simp add: slow_service_def example_defs eval_nat_numeral)
qed

text \<open>
  C8, as amended.  The two kinds of loop sleep for different times, and the refresh loops
  for longer: every sleep of the monitor loop lasts 10 seconds and every sleep of a
  refresh loop 30 seconds.  Both are constants of the program; no wait takes an interval.
\<close>

theorem poll_intervals_are_constants:
  assumes "\<forall>k<n. status (get_result svc (gets s + k)) = MONITOR_STATUS_PENDING"
    and "status (get_result svc (gets s + n)) \<noteq> MONITOR_STATUS_PENDING"
    and "\<forall>k<m. state (refresh_seq svc (refresh_gets s) r k) \<in> {PENDING, RUNNING}"
    and "state (refresh_seq svc (refresh_gets s) r m) \<notin> {PENDING, RUNNING}"
  shows "(\<exists>res s'. awaitActive svc s = Some (res, s') \<and>
            sleeps (trace s') = sleeps (trace s) @ replicate n 10) \<and>
         (\<exists>res s'. awaitRefresh svc r s = Some (res, s') \<and>
            sleeps (trace s') = sleeps (trace s) @ replicate m 30) \<and>
         (10::nat) < 30"
  by (simp add: awaitActive_leaves [OF assms(1,2)] awaitRefresh_leaves [OF assms(3,4)]
      sleeps_append sleeps_monitor_rounds sleeps_refresh_events)

text \<open>
  C8, as amended, for a monitor that is PENDING twice and a refresh that is pending
  three times.
\<close>

theorem poll_intervals_are_constants_witness:
  "(\<exists>res s'. awaitActive slow_service world0 = Some (res, s') \<and> sleeps (trace s') = [10, 10]) \<and>
   (\<exists>res s'. awaitRefresh slow_service (run_of 7 PENDING) world0 = Some (res, s') \<and>
      sleeps (trace s') = [30, 30, 30])"
proof -
  have a: "\<forall>k<2. status (get_result slow_service (gets world0 + k)) = MONITOR_STATUS_PENDING"
    by (simp add: all_less_2 slow_service_def example_defs)
  have b: "status (get_result slow_service (gets world0 + 2)) \<noteq> MONITOR_STATUS_PENDING"
    by (simp add: slow_service_def example_defs)
  have c: "\<forall>k<3. state (refresh_seq slow_service (refresh_gets world0) (run_of 7 PENDING) k)
              \<in> {PENDING, RUNNING}"
    by (subst all_less_3) (simp add: slow_service_def example_defs eval_nat_numeral)
  have d: "state (refresh_seq slow_service (refresh_gets world0) (run_of 7 PENDING) 3)
              \<notin> {PENDING, RUNNING}"
    by (simp add: slow_service_def example_defs eval_nat_numeral)
  have e: "sleeps (trace world0) = []"
    by (simp add: world0_def)
  show ?thesis
    using poll_intervals_are_constants [OF a b c d]
    by (simp add: e eval_nat_numeral)
qed

text \<open>
  C8 as stated fails: the waits take the service and the program state and nothing else,
  so a caller who wants a poll every 5 seconds gets the sleeps of 10 and of 30 seconds.
\<close>

theorem caller_cannot_choose_poll_interval:
  "map_option (sleeps \<circ> trace \<circ> snd) (awaitActive slow_service world0) = Some [10, 10] \<and>
   map_option (polls_every 5 \<circ> trace \<circ> snd) (awaitActive slow_service world0) = Some False \<and>
   map_option (sleeps \<circ> trace \<circ> snd) (awaitRefresh slow_service (run_of 7 PENDING) world0) =
     Some [30, 30, 30] \<and>
   map_option (polls_every 5 \<circ> trace \<circ> snd) (awaitRefresh slow_service (run_of 7 PENDING) world0) =
     Some False"
proof -
  have a: "\<forall>k<2. status (get_result slow_service (gets world0 + k)) = MONITOR_STATUS_PENDING"
    by (simp add: all_less_2 slow_service_def example_defs)
  have b: "status (get_result slow_service (gets world0 + 2)) \<noteq> MONITOR_STATUS_PENDING"
    by (simp add: slow_service_def example_defs)
  have c: "\<forall>k<3. state (refresh_seq slow_service (refresh_gets world0) (run_of 7 PENDING) k)
              \<in> {PENDING, RUNNING}"
    by (subst all_less_3) (simp add: slow_service_def example_defs eval_nat_numeral)
  have d: "state (refresh_seq slow_service (refresh_gets world0) (run_of 7 PENDING) 3)
              \<notin> {PENDING, RUNNING}"
    by (simp add: slow_service_def example_defs eval_nat_numeral)
  have e: "sleeps (trace world0) = []"
    by (simp add: world0_def)
  show ?thesis
    by (simp only: awaitActive_leaves [OF a b] awaitRefresh_leaves [OF c d])
       (simp add: polls_every_def sleeps_append sleeps_monitor_rounds sleeps_refresh_events e
          eval_nat_numeral)
qed

text \<open>
  C9.  Once the wait for the monitor has returned (the monitor is ACTIVE), the program
  lists the refreshes.  With an empty list it raises an \<open>AssertionError\<close> before any poll
  of a refresh.  With a list \<open>r # rs\<close> it waits for \<open>r\<close>, and what it does is the same
  whatever \<open>rs\<close> is; against a service that answers for the id it is asked for, every
  poll asks for the id of \<open>r\<close>.
\<close>

theorem first_refresh_polls_first_run_only:
  "(awaitActive svc s0 = Some (Inr info, s) \<longrightarrow>
      wait_for_monitor svc s0 = first_refresh svc s) \<and>
   (list_refreshes_result svc = [] \<longrightarrow>
      first_refresh svc s =
        Some (Inl (AssertionError []), s\<lparr>trace := trace s @ [ListRefreshes (w s)]\<rparr>)) \<and>
   (list_refreshes_result svc = r # rs \<longrightarrow>
      first_refresh svc s =
        awaitRefresh svc r (s\<lparr>trace := trace s @ [ListRefreshes (w s)]\<rparr>)) \<and>
   (list_refreshes_result svc = r # rs \<and>
    (\<forall>k i. refresh_id (get_refresh_result svc k i) = i) \<and>
    (\<forall>k<n. state (refresh_seq svc (refresh_gets s) r k) \<in> {PENDING, RUNNING}) \<and>
    state (refresh_seq svc (refresh_gets s) r n) \<notin> {PENDING, RUNNING} \<longrightarrow>
      map_option (trace \<circ> snd) (first_refresh svc s) =
        Some (trace s @ ListRefreshes (w s) #
              concat (replicate n [GetRefresh (w s) (refresh_id r), Sleep 30])))"
proof (intro conjI impI)
  assume "awaitActive svc s0 = Some (Inr info, s)"
  then show "wait_for_monitor svc s0 = first_refresh svc s"
    by (simp add: wait_for_monitor_def)
next
  assume "list_refreshes_result svc = []"
  then show "first_refresh svc s =
      Some (Inl (AssertionError []), s\<lparr>trace := trace s @ [ListRefreshes (w s)]\<rparr>)"
    by (simp add: first_refresh_def quality_monitors_list_refreshes_def emit_def)
next
  assume "list_refreshes_result svc = r # rs"
  then show "first_refresh svc s =
      awaitRefresh svc r (s\<lparr>trace := trace s @ [ListRefreshes (w s)]\<rparr>)"
    by (simp add: first_refresh_def quality_monitors_list_refreshes_def emit_def)
next
  let ?s = "s\<lparr>trace := trace s @ [ListRefreshes (w s)]\<rparr>"
  assume h: "list_refreshes_result svc = r # rs \<and>
    (\<forall>k i. refresh_id (get_refresh_result svc k i) = i) \<and>
    (\<forall>k<n. state (refresh_seq svc (refresh_gets s) r k) \<in> {PENDING, RUNNING}) \<and>
    state (refresh_seq svc (refresh_gets s) r n) \<notin> {PENDING, RUNNING}"
  then have run: "first_refresh svc s = awaitRefresh svc r ?s"
    by (simp add: first_refresh_def quality_monitors_list_refreshes_def emit_def)
  have a: "\<forall>k<n. state (refresh_seq svc (refresh_gets ?s) r k) \<in> {PENDING, RUNNING}"
    using h by simp
  have b: "state (refresh_seq svc (refresh_gets ?s) r n) \<notin> {PENDING, RUNNING}"
    using h by simp
  have ids: "\<forall>k i. refresh_id (get_refresh_result svc k i) = i"
    using h by blast
  show "map_option (trace \<circ> snd) (first_refresh svc s) =
        Some (trace s @ ListRefreshes (w s) #
              concat (replicate n [GetRefresh (w s) (refresh_id r), Sleep 30]))"
    by (simp add: run awaitRefresh_leaves [OF a b] refresh_events_same_id [OF ids])
qed

text \<open>
  C9 for a monitor without refreshes, and for one with the refreshes 7 and 8: only 7 is
  polled.
\<close>

theorem first_refresh_polls_first_run_only_witness:
  "first_refresh no_refresh_service world0 =
     Some (Inl (AssertionError []), world0\<lparr>trace := [ListRefreshes 0]\<rparr>) \<and>
   map_option (trace \<circ> snd) (first_refresh slow_service world0) =
     Some [ListRefreshes 0, GetRefresh 0 7, Sleep 30, GetRefresh 0 7, Sleep 30,
           GetRefresh 0 7, Sleep 30]"
proof -
  have e: "list_refreshes_result no_refresh_service = []"
    by (simp add: no_refresh_service_def example_defs)
  have l: "list_refreshes_result slow_service = run_of 7 PENDING # [run_of 8 RUNNING]"
    by (simp add: slow_service_def example_defs)
  have i: "\<forall>k i. refresh_id (get_refresh_result slow_service k i) = i"
    by (simp add: slow_service_def example_defs)
  have c: "\<forall>k<3. state (refresh_seq slow_service (refresh_gets world0) (run_of 7 PENDING) k)
              \<in> {PENDING, RUNNING}"
    by (subst all_less_3) (simp add: slow_service_def example_defs eval_nat_numeral)
  have d: "state (refresh_seq slow_service (refresh_gets world0) (run_of 7 PENDING) 3)
              \<notin> {PENDING, RUNNING}"
    by (simp add: slow_service_def example_defs eval_nat_numeral)
  have one: "first_refresh no_refresh_service world0 =
     Some (Inl (AssertionError []), world0\<lparr>trace := trace world0 @ [ListRefreshes (w world0)]\<rparr>)"
    using first_refresh_polls_first_run_only [of no_refresh_service] e by blast
  have two: "map_option (trace \<circ> snd) (first_refresh slow_service world0) =
        Some (trace world0 @ ListRefreshes (w world0) #
              concat (replicate 3 [GetRefresh (w world0) (refresh_id (run_of 7 PENDING)), Sleep 30]))"
    using first_refresh_polls_first_run_only
      [of slow_service _ _ world0 "run_of 7 PENDING" "[run_of 8 RUNNING]" 3] l i c d by blast
  from one two show ?thesis
    by (simp add: world0_def run_of_def eval_nat_numeral)
qed

text \<open>
  C10.  Each wait leaves its loop at the first answer outside the pending set (PENDING
  for the monitor; PENDING or RUNNING for a refresh), with no fetch after it.  It then
  returns the answer when the status is ACTIVE (SUCCESS for a refresh), and raises one
  and the same \<open>AssertionError\<close> for every other status: \<open>Error creating monitor\<close> for
  the monitor, \<open>Monitor refresh failed\<close> for a refresh, at lines 144 and 415 alike.
\<close>

theorem waits_report_one_error_each:
  "((\<forall>k<n. status (get_result svc (gets s + k)) = MONITOR_STATUS_PENDING) \<and>
    status (get_result svc (gets s + n)) \<noteq> MONITOR_STATUS_PENDING \<longrightarrow>
    awaitActive svc s =
      Some (if status (get_result svc (gets s + n)) = MONITOR_STATUS_ACTIVE
            then Inr (get_result svc (gets s + n))
            else Inl (AssertionError ''Error creating monitor''),
            s\<lparr>gets := gets s + Suc n,
              trace := trace s @ Get (w s) # concat (replicate n [Get (w s), Sleep 10])\<rparr>)) \<and>
   ((\<forall>k<m. state (refresh_seq svc (refresh_gets s) r k) \<in> {PENDING, RUNNING}) \<and>
    state (refresh_seq svc (refresh_gets s) r m) \<notin> {PENDING, RUNNING} \<longrightarrow>
    awaitRefresh svc r s =
      Some (if state (refresh_seq svc (refresh_gets s) r m) = SUCCESS
            then Inr (refresh_seq svc (refresh_gets s) r m)
            else Inl (AssertionError ''Monitor refresh failed''),
            s\<lparr>refresh_gets := refresh_gets s + m,
              trace := trace s @ refresh_events svc (w s) (refresh_gets s) r m\<rparr>))"
  using awaitActive_leaves [of n svc s] awaitRefresh_leaves [of m svc s r] by blast

text \<open>
  C10 for a monitor that ends FAILED and one that ends in ERROR, and for a refresh that
  ends FAILED and one that ends CANCELED: the caller sees the same error.
\<close>

theorem waits_report_one_error_each_witness:
  "map_option fst (awaitActive failing_service world0) =
     Some (Inl (AssertionError ''Error creating monitor'')) \<and>
   map_option fst (awaitActive erring_service world0) =
     Some (Inl (AssertionError ''Error creating monitor'')) \<and>
   map_option fst (awaitRefresh failing_service (run_of 7 RUNNING) world0) =
     Some (Inl (AssertionError ''Monitor refresh failed'')) \<and>
   map_option fst (awaitRefresh erring_service (run_of 7 RUNNING) world0) =
     Some (Inl (AssertionError ''Monitor refresh failed''))"
proof -
  have a1: "(\<forall>k<1. status (get_result failing_service (gets world0 + k)) = MONITOR_STATUS_PENDING) \<and>
      status (get_result failing_service (gets world0 + 1)) \<noteq> MONITOR_STATUS_PENDING"
    by (simp add: failing_service_def example_defs)
  have a2: "(\<forall>k<1. status (get_result erring_service (gets world0 + k)) = MONITOR_STATUS_PENDING) \<and>
      status (get_result erring_service (gets world0 + 1)) \<noteq> MONITOR_STATUS_PENDING"
    by (simp add: erring_service_def example_defs)
  have b1: "(\<forall>k<1. state (refresh_seq failing_service (refresh_gets world0) (run_of 7 RUNNING) k)
                \<in> {PENDING, RUNNING}) \<and>
      state (refresh_seq failing_service (refresh_gets world0) (run_of 7 RUNNING) 1)
        \<notin> {PENDING, RUNNING}"
    by (simp add: failing_service_def example_defs)
  have b2: "(\<forall>k<1. state (refresh_seq erring_service (refresh_gets world0) (run_of 7 RUNNING) k)
                \<in> {PENDING, RUNNING}) \<and>
      state (refresh_seq erring_service (refresh_gets world0) (run_of 7 RUNNING) 1)
        \<notin> {PENDING, RUNNING}"
    by (simp add: erring_service_def example_defs)
  have c1: "status (get_result failing_service (gets world0 + 1)) \<noteq> MONITOR_STATUS_ACTIVE"
    by (simp add: failing_service_def example_defs)
  have c2: "status (get_result erring_service (gets world0 + 1)) \<noteq> MONITOR_STATUS_ACTIVE"
    by (simp add: erring_service_def example_defs)
  have d1: "state (refresh_seq failing_service (refresh_gets world0) (run_of 7 RUNNING) 1) \<noteq> SUCCESS"
    by (simp add: failing_service_def example_defs)
  have d2: "state (refresh_seq erring_service (refresh_gets world0) (run_of 7 RUNNING) 1) \<noteq> SUCCESS"
    by (simp add: erring_service_def example_defs)
  from
    waits_report_one_error_each [of 1 failing_service world0 1 "run_of 7 RUNNING"]
    waits_report_one_error_each [of 1 erring_service world0 1 "run_of 7 RUNNING"]
    a1 a2 b1 b2 c1 c2 d1 d2
  show ?thesis by simp
qed

end
